theory Spec2Isabelle
  imports Complex_Main "HOL-Library.Word"
begin

unbundle bit_operations_syntax

section \<open>Values of the program\<close>

text \<open>
  The program works on NumPy arrays of \<open>float64\<close>. A sample is modelled as a real
  number or one of the three IEEE special values, and an array as a list. The arithmetic
  follows IEEE 754 where the exponent range of \<open>float64\<close> ends: a result too large
  becomes an infinity, a result below the normal range is rounded to a multiple of
  \<open>2^-1074\<close> (\<open>round64\<close> below). Two things are not modelled: inside the normal
  range results are kept exact, where the machine rounds them to 53 significant bits
  (a relative error of at most \<open>2^-53\<close> for each operation); and every zero is
  \<open>+0.0\<close> (the only divisor that can be zero in the program is the result of
  \<open>np.abs\<close>, which is \<open>+0.0\<close>).
\<close>

datatype float64 = Fin real | PInf | NInf | NaN

text \<open>The exceptions the modelled library calls raise.\<close>

datatype py_error = ValueError | TypeError

text \<open>A Python number: an \<open>int\<close> (unbounded) or a \<open>float\<close>.\<close>

datatype py_num = PyInt int | PyFloat float64

text \<open>An item handed to \<open>np.fromiter\<close>: a scalar, or a one-dimensional array.\<close>

datatype py_item = Scalar float64 | Array "float64 list"

subsection \<open>Constants (lines 13 to 15)\<close>

definition SAMPLING_FREQ :: int where
  "SAMPLING_FREQ = 44100"

definition SAMPLE_WIDTH :: nat where
  "SAMPLE_WIDTH = 16"

definition MAX_INT_SAMPLE_VALUE :: int where
  "MAX_INT_SAMPLE_VALUE = 2 ^ (SAMPLE_WIDTH - 1) - 1"

section \<open>Library functions the program calls\<close>

subsection \<open>IEEE arithmetic on samples\<close>

fun inf_of :: "real \<Rightarrow> float64" where
  "inf_of s = (if 0 < s then PInf else if s < 0 then NInf else NaN)"

fun sign_of :: "float64 \<Rightarrow> real" where
  "sign_of (Fin x) = sgn x"
| "sign_of PInf = 1"
| "sign_of NInf = - 1"
| "sign_of NaN = 0"

text \<open>
  The largest finite \<open>float64\<close>, the smallest positive normal one, and rounding to
  the nearest integer with ties to the even one.
\<close>

definition float64_max :: real where
  "float64_max = 2 ^ 1024 - 2 ^ 971"

definition float64_min_normal :: real where
  "float64_min_normal = 1 / 2 ^ 1022"

definition round_half_even :: "real \<Rightarrow> int" where
  "round_half_even r =
     (if r - real_of_int \<lfloor>r\<rfloor> < 1 / 2 then \<lfloor>r\<rfloor>
      else if 1 / 2 < r - real_of_int \<lfloor>r\<rfloor> then \<lfloor>r\<rfloor> + 1
      else if even \<lfloor>r\<rfloor> then \<lfloor>r\<rfloor> else \<lfloor>r\<rfloor> + 1)"

text \<open>
  The \<open>float64\<close> that stands for the exact result \<open>x\<close> of an operation. From
  \<open>2^1024 - 2^970\<close> on (the largest finite value plus half its last bit) the result is
  an infinity; up to there it is the largest finite value. Below \<open>2^-1022\<close> the
  representable numbers are the multiples of \<open>2^-1074\<close> and the result is the nearest
  one. In between \<open>x\<close> is kept.
\<close>

definition round64 :: "real \<Rightarrow> float64" where
  "round64 x =
     (if 2 ^ 1024 - 2 ^ 970 \<le> \<bar>x\<bar> then inf_of x
      else if float64_max < \<bar>x\<bar> then Fin (sgn x * float64_max)
      else if \<bar>x\<bar> < float64_min_normal
        then Fin (real_of_int (round_half_even (x * 2 ^ 1074)) / 2 ^ 1074)
      else Fin x)"

text \<open>
  A value the machine can hold, as far as the model tells: not beyond the largest finite
  value, and a multiple of \<open>2^-1074\<close> when below the normal range.
\<close>

fun valid64 :: "float64 \<Rightarrow> bool" where
  "valid64 (Fin x) =
     (\<bar>x\<bar> \<le> float64_max
      \<and> (float64_min_normal \<le> \<bar>x\<bar> \<or> real_of_int \<lfloor>x * 2 ^ 1074\<rfloor> = x * 2 ^ 1074))"
| "valid64 x = True"

text \<open>\<open>np.pi\<close>, the \<open>float64\<close> nearest to \<open>\<pi>\<close>: \<open>0x400921FB54442D18\<close>.\<close>

definition np_pi :: real where
  "np_pi = 884279719003555 / 2 ^ 48"

fun fl_mul :: "float64 \<Rightarrow> float64 \<Rightarrow> float64" where
  "fl_mul (Fin a) (Fin b) = round64 (a * b)"
| "fl_mul NaN y = NaN"
| "fl_mul x NaN = NaN"
| "fl_mul x y = inf_of (sign_of x * sign_of y)"

fun fl_div :: "float64 \<Rightarrow> float64 \<Rightarrow> float64" where
  "fl_div (Fin a) (Fin b) = (if b = 0 then inf_of (sgn a) else round64 (a / b))"
| "fl_div NaN y = NaN"
| "fl_div x NaN = NaN"
| "fl_div (Fin a) y = Fin 0"
| "fl_div x (Fin b) = inf_of (sign_of x * (if b < 0 then - 1 else 1))"
| "fl_div x y = NaN"

fun fl_add :: "float64 \<Rightarrow> float64 \<Rightarrow> float64" where
  "fl_add (Fin a) (Fin b) = round64 (a + b)"
| "fl_add NaN y = NaN"
| "fl_add x NaN = NaN"
| "fl_add PInf NInf = NaN"
| "fl_add NInf PInf = NaN"
| "fl_add (Fin a) y = y"
| "fl_add x y = x"

fun fl_neg :: "float64 \<Rightarrow> float64" where
  "fl_neg (Fin a) = Fin (- a)"
| "fl_neg PInf = NInf"
| "fl_neg NInf = PInf"
| "fl_neg NaN = NaN"

definition fl_sub :: "float64 \<Rightarrow> float64 \<Rightarrow> float64" where
  "fl_sub x y = fl_add x (fl_neg y)"

text \<open>
  \<open>np.abs\<close> and \<open>np.sin\<close> on one element. The sine of the C library is taken as
  the exact sine, rounded as above; of an infinity or a NaN it is NaN.
\<close>

fun fl_abs :: "float64 \<Rightarrow> float64" where
  "fl_abs (Fin a) = Fin \<bar>a\<bar>"
| "fl_abs PInf = PInf"
| "fl_abs NInf = PInf"
| "fl_abs NaN = NaN"

fun fl_sin :: "float64 \<Rightarrow> float64" where
  "fl_sin (Fin a) = round64 (sin a)"
| "fl_sin x = NaN"


text \<open>The comparisons \<open><\<close> and \<open><=\<close>: false as soon as one side is NaN.\<close>

fun fl_less :: "float64 \<Rightarrow> float64 \<Rightarrow> bool" where
  "fl_less NaN y = False"
| "fl_less x NaN = False"
| "fl_less (Fin a) (Fin b) = (a < b)"
| "fl_less x PInf = (x \<noteq> PInf)"
| "fl_less NInf y = (y \<noteq> NInf)"
| "fl_less x y = False"


text \<open>\<open>np.maximum\<close> and \<open>np.minimum\<close>: a NaN operand gives NaN.\<close>

fun fl_maximum :: "float64 \<Rightarrow> float64 \<Rightarrow> float64" where
  "fl_maximum NaN y = NaN"
| "fl_maximum x NaN = NaN"
| "fl_maximum x y = (if fl_less x y then y else x)"

fun fl_minimum :: "float64 \<Rightarrow> float64 \<Rightarrow> float64" where
  "fl_minimum NaN y = NaN"
| "fl_minimum x NaN = NaN"
| "fl_minimum x y = (if fl_less y x then y else x)"

subsection \<open>\<open>zip\<close>, slices and \<open>np.fromiter\<close>\<close>

text \<open>
  \<open>zip(*its)\<close>: each round takes the next element of every iterable, in order, and the
  iteration ends as soon as one of them is exhausted; with no iterable at all it is empty.
\<close>

function zip_star :: "'a list list \<Rightarrow> 'a list list" where
  "zip_star its =
     (if its = [] \<or> [] \<in> set its then [] else map hd its # zip_star (map tl its))"
  by pat_completeness auto
termination
proof (relation "measure (\<lambda>its. length (hd its))")
  show "wf (measure (\<lambda>its::'a list list. length (hd its)))"
    by simp
next
  fix its :: "'a list list"
  assume running: "\<not> (its = [] \<or> [] \<in> set its)"
  then obtain c cs where its: "its = c # cs"
    by (cases its) simp_all
  with running have "c \<noteq> []"
    by auto
  then have "length (tl c) < length c"
    by (cases c) simp_all
  with its show "(map tl its, its) \<in> measure (\<lambda>its. length (hd its))"
    by simp
qed

declare zip_star.simps [simp del]

text \<open>
  The slice \<open>xs[i::n]\<close> for a step \<open>n > 0\<close>: the elements at \<open>i\<close>, \<open>i + n\<close>,
  \<open>i + 2n\<close>, ... below \<open>len(xs)\<close>. (A step of 0 raises in Python; the program only
  slices inside \<open>range(num_channels)\<close>, which is empty unless \<open>num_channels > 0\<close>.)
\<close>

definition slice_from_step :: "'a list \<Rightarrow> nat \<Rightarrow> nat \<Rightarrow> 'a list" where
  "slice_from_step xs i n = map (\<lambda>q. xs ! (i + q * n)) [0..<(length xs + n - 1 - i) div n]"

text \<open>\<open>range(n)\<close> for a Python int: empty when \<open>n \<le> 0\<close>.\<close>

definition py_range :: "int \<Rightarrow> nat list" where
  "py_range n = [0..<nat n]"

text \<open>
  Storing one item into a \<open>float\<close> array, as \<open>np.fromiter(it, float)\<close> does for each
  item: a scalar is stored as it is; an array is converted with \<open>float(item)\<close>, which
  fails, and NumPy reports the failure as
  \<open>ValueError: setting an array element with a sequence\<close>. (This is NumPy 2.4. Up to
  NumPy 2.3 \<open>float\<close> of an array with exactly one element gave that element, with a
  deprecation warning since 1.25; an array of any other size failed as now.)
\<close>

fun setitem_float :: "py_item \<Rightarrow> py_error + float64" where
  "setitem_float (Scalar x) = Inr x"
| "setitem_float (Array xs) = Inl ValueError"

fun np_fromiter_float :: "py_item list \<Rightarrow> py_error + float64 list" where
  "np_fromiter_float [] = Inr []"
| "np_fromiter_float (item # items) =
     (case setitem_float item of
        Inl e \<Rightarrow> Inl e
      | Inr x \<Rightarrow> (case np_fromiter_float items of Inl e \<Rightarrow> Inl e | Inr xs \<Rightarrow> Inr (x # xs)))"

subsection \<open>Reductions, clipping and casts\<close>

text \<open>\<open>np.max\<close> of a one-dimensional array: it raises on an empty array.\<close>

definition np_max :: "float64 list \<Rightarrow> py_error + float64" where
  "np_max xs = (case xs of [] \<Rightarrow> Inl ValueError | x # rest \<Rightarrow> Inr (foldl fl_maximum x rest))"

definition np_clip :: "float64 \<Rightarrow> float64 \<Rightarrow> float64 \<Rightarrow> float64" where
  "np_clip x lo hi = fl_minimum (fl_maximum x lo) hi"

text \<open>The C cast of a real to an integer truncates towards zero.\<close>

definition trunc :: "real \<Rightarrow> int" where
  "trunc v = (if 0 \<le> v then \<lfloor>v\<rfloor> else \<lceil>v\<rceil>)"

text \<open>
  \<open>astype("<i2")\<close> on one element. Inside the range of \<open>int16\<close> it is the C cast. On a
  NaN, an infinity or a value out of range the cast is undefined in C; the value written
  here is that of x86-64 builds (conversion to 32 bits, of which the low 16 are kept).
  \<open>convert_to_bytes\<close> clips before it casts, so only a NaN can reach that case.
\<close>

definition astype_i2 :: "float64 \<Rightarrow> 16 word" where
  "astype_i2 x =
     (case x of
        Fin v \<Rightarrow> (if - (2 ^ 31) \<le> trunc v \<and> trunc v < 2 ^ 31 then word_of_int (trunc v) else 0)
      | _ \<Rightarrow> 0)"

text \<open>\<open>tobytes\<close> of a little-endian \<open>int16\<close> array: low byte first.\<close>

definition tobytes_i2 :: "16 word list \<Rightarrow> 8 word list" where
  "tobytes_i2 ws = concat (map (\<lambda>w. [ucast w, ucast (drop_bit 8 w)]) ws)"

text \<open>
  \<open>np.frombuffer(buf, dtype="<i2")\<close>: it raises \<open>ValueError\<close> (buffer size must be a
  multiple of element size) on a buffer of odd length.
\<close>

fun i2_of_bytes :: "8 word list \<Rightarrow> 16 word list" where
  "i2_of_bytes (lo # hi # rest) = (ucast lo OR push_bit 8 (ucast hi)) # i2_of_bytes rest"
| "i2_of_bytes rest = []"

definition np_frombuffer_i2 :: "8 word list \<Rightarrow> py_error + 16 word list" where
  "np_frombuffer_i2 buf =
     (if length buf mod 2 \<noteq> 0 then Inl ValueError else Inr (i2_of_bytes buf))"

subsection \<open>\<open>np.linspace\<close>\<close>

text \<open>
  \<open>np.linspace(start, stop, num)\<close> with \<open>endpoint=True\<close>, after
  \<open>numpy/core/function_base.py\<close>: \<open>num\<close> goes through \<open>operator.index\<close>, which
  rejects a \<open>float\<close> (since NumPy 1.18; before, a \<open>float\<close> was truncated, with a
  deprecation warning); a negative \<open>num\<close> is a \<open>ValueError\<close>; the points are
  \<open>arange(0, num) * step + start\<close> with \<open>step = (stop - start) / (num - 1)\<close>, and
  the last point is overwritten with \<open>stop\<close> when there are at least two.
\<close>

definition np_linspace :: "float64 \<Rightarrow> float64 \<Rightarrow> py_num \<Rightarrow> py_error + float64 list" where
  "np_linspace start stop num =
     (case num of
        PyFloat x \<Rightarrow> Inl TypeError
      | PyInt n \<Rightarrow>
          if n < 0 then Inl ValueError
          else
            let divisor = n - 1;
                delta = fl_sub stop start;
                y = map (\<lambda>i. Fin (real i)) [0..<nat n];
                step = fl_div delta (Fin (real_of_int divisor));
                y = (if 0 < divisor
                     then (if step = Fin 0
                           then map (\<lambda>v. fl_mul (fl_div v (Fin (real_of_int divisor))) delta) y
                           else map (\<lambda>v. fl_mul v step) y)
                     else map (\<lambda>v. fl_mul v delta) y);
                y = map (\<lambda>v. fl_add v start) y;
                y = (if 1 < n then y[nat n - 1 := stop] else y)
            in Inr y)"

subsection \<open>Python numbers\<close>

text \<open>
  The product of a number and an \<open>int\<close>, and the conversion of a number to
  \<open>float64\<close>. An \<open>int\<close> is converted exactly, as the machine does up to \<open>2^53\<close> in
  magnitude; so are the indices \<open>arange(0, num)\<close> of \<open>np.linspace\<close> above.
\<close>

fun py_mul_int :: "py_num \<Rightarrow> int \<Rightarrow> py_num" where
  "py_mul_int (PyInt a) b = PyInt (a * b)"
| "py_mul_int (PyFloat x) b = PyFloat (fl_mul x (Fin (real_of_int b)))"

fun py_to_float :: "py_num \<Rightarrow> float64" where
  "py_to_float (PyInt a) = Fin (real_of_int a)"
| "py_to_float (PyFloat x) = x"

section \<open>The program\<close>

subsection \<open>Channels (lines 18 to 24)\<close>

text \<open>
  \<^verbatim>\<open>
  def merge_channels(channels):
      return np.fromiter((sample for samples in zip(*channels) for sample in samples), float)

  def separate_channels(samples, num_channels):
      return np.fromiter((samples[i::num_channels] for i in range(num_channels)), float)
  \<close>
  The comments of the two functions give the list each is meant to be equivalent to:
  \<open>[sample for samples in zip(*channels) for sample in samples]\<close> and
  \<open>[samples[i::num_channels] for i in range(num_channels)]\<close>.
\<close>

definition merge_channels :: "float64 list list \<Rightarrow> py_error + float64 list" where
  "merge_channels channels =
     np_fromiter_float (map Scalar (concat (zip_star channels)))"

definition separate_channels :: "float64 list \<Rightarrow> int \<Rightarrow> py_error + float64 list" where
  "separate_channels samples num_channels =
     np_fromiter_float
       (map (\<lambda>i. Array (slice_from_step samples i (nat num_channels))) (py_range num_channels))"

subsection \<open>Time base and sine wave (lines 26 to 40)\<close>

text \<open>
  \<^verbatim>\<open>
  def generate_sample_time_points(duration):
      return np.linspace(0, duration, duration * SAMPLING_FREQ)

  def sine(freq, amplitude, duration):
      time_points = generate_sample_time_points(duration)
      return amplitude * np.sin(freq * 2*np.pi * time_points)
  \<close>
  The number of points is the product itself, an \<open>int\<close> for an \<open>int\<close> duration and a
  \<open>float\<close> for a \<open>float\<close> one.
\<close>

definition generate_sample_time_points :: "py_num \<Rightarrow> py_error + float64 list" where
  "generate_sample_time_points duration =
     np_linspace (Fin 0) (py_to_float duration) (py_mul_int duration SAMPLING_FREQ)"

text \<open>
  \<open>freq\<close> and \<open>amplitude\<close> are taken as floats: the program multiplies them with
  \<open>np.pi\<close> and with a float array, which converts an \<open>int\<close> argument first.
\<close>

definition sine :: "float64 \<Rightarrow> float64 \<Rightarrow> py_num \<Rightarrow> py_error + float64 list" where
  "sine freq amplitude duration =
     (case generate_sample_time_points duration of
        Inl e \<Rightarrow> Inl e
      | Inr time_points \<Rightarrow>
          Inr (map (\<lambda>t. fl_mul amplitude (fl_sin (fl_mul (fl_mul (fl_mul freq (Fin 2)) (Fin np_pi)) t)))
                 time_points))"

subsection \<open>Normalisation (lines 66 to 75)\<close>

text \<open>
  \<^verbatim>\<open>
  def normalize(samples, norm_target):
      abs_samples = np.abs(samples)
      max_sample = np.max(abs_samples)
      coeff = norm_target / max_sample
      normalized_samples = coeff * samples
      return normalized_samples
  \<close>
  \<open>max_sample\<close> is a NumPy scalar, so the division is NumPy's: by zero it gives an
  infinity or a NaN (and a warning), not \<open>ZeroDivisionError\<close>.
  The function is \<open>normalize_samples\<close> here, \<open>normalize\<close> being a constant of HOL.
\<close>

definition normalize_samples :: "float64 list \<Rightarrow> float64 \<Rightarrow> py_error + float64 list" where
  "normalize_samples samples norm_target =
     (let abs_samples = map fl_abs samples in
      case np_max abs_samples of
        Inl e \<Rightarrow> Inl e
      | Inr max_sample \<Rightarrow>
          let coeff = fl_div norm_target max_sample;
              normalized_samples = map (fl_mul coeff) samples
          in Inr normalized_samples)"

subsection \<open>Conversion to and from 16-bit samples (lines 77 to 95)\<close>

text \<open>
  \<^verbatim>\<open>
  def convert_to_bytes(samples):
      clipped = np.clip(samples, -1, 1)
      int_samples = (clipped * MAX_INT_SAMPLE_VALUE).astype("<i2")
      sample_bytes = int_samples.tobytes()
      return sample_bytes

  def convert_to_samples(bytes):
      int_samples = np.frombuffer(bytes, dtype="<i2")
      samples = int_samples.astype(float) / MAX_INT_SAMPLE_VALUE
  \<close>
\<close>

definition convert_to_bytes :: "float64 list \<Rightarrow> 8 word list" where
  "convert_to_bytes samples =
     (let clipped = map (\<lambda>s. np_clip s (Fin (- 1)) (Fin 1)) samples;
          int_samples = map (\<lambda>c. astype_i2 (fl_mul c (Fin (real_of_int MAX_INT_SAMPLE_VALUE)))) clipped;
          sample_bytes = tobytes_i2 int_samples
      in sample_bytes)"

text \<open>
  The value of the local variable \<open>samples\<close> after line 95, the last statement of
  \<open>convert_to_samples\<close>.
\<close>

definition convert_to_samples_local :: "8 word list \<Rightarrow> py_error + float64 list" where
  "convert_to_samples_local bytes =
     (case np_frombuffer_i2 bytes of
        Inl e \<Rightarrow> Inl e
      | Inr int_samples \<Rightarrow>
          Inr (map (\<lambda>w. fl_div (Fin (real_of_int (sint w))) (Fin (real_of_int MAX_INT_SAMPLE_VALUE)))
                 int_samples))"

text \<open>
  \<open>convert_to_samples\<close> has no \<open>return\<close> statement: when its body has run without
  raising, the call evaluates to Python's \<open>None\<close>, written \<open>None\<close> here; an array
  would be \<open>Some\<close> of it.
\<close>

definition convert_to_samples :: "8 word list \<Rightarrow> py_error + float64 list option" where
  "convert_to_samples bytes =
     (case convert_to_samples_local bytes of
        Inl e \<Rightarrow> Inl e
      | Inr samples \<Rightarrow> Inr None)"

section \<open>Facts about the library model\<close>

lemma max_int_value: "MAX_INT_SAMPLE_VALUE = 32767"
  by (simp add: MAX_INT_SAMPLE_VALUE_def SAMPLE_WIDTH_def)

lemma np_fromiter_float_scalars: "np_fromiter_float (map Scalar xs) = Inr xs"
  by (induction xs) simp_all

lemma setitem_float_array: "setitem_float (Array xs) = Inl ValueError"
  by simp

subsection \<open>Rounding\<close>

lemma float64_max_below_overflow: "float64_max < 2 ^ 1024 - 2 ^ 970"
  by (simp add: float64_max_def)

lemma float64_min_normal_pos: "0 < float64_min_normal"
  by (simp add: float64_min_normal_def)

lemma float64_bounds_moderate: "float64_min_normal \<le> 1 / 2 ^ 64" "2 ^ 64 \<le> float64_max"
  by (simp_all add: float64_min_normal_def float64_max_def)

text \<open>Inside the normal range, and at zero, a result is kept.\<close>

lemma round64_normal:
  "float64_min_normal \<le> \<bar>x\<bar> \<Longrightarrow> \<bar>x\<bar> \<le> float64_max \<Longrightarrow> round64 x = Fin x"
  using float64_max_below_overflow by (simp add: round64_def)

lemma round_half_even_int: "round_half_even (real_of_int n) = n"
  by (simp add: round_half_even_def)

lemma round64_zero: "round64 0 = Fin 0"
  using float64_max_below_overflow float64_min_normal_pos
  by (simp add: round64_def round_half_even_def)

lemma round64_exact: "1 / 2 ^ 64 \<le> \<bar>x\<bar> \<Longrightarrow> \<bar>x\<bar> \<le> 2 ^ 64 \<Longrightarrow> round64 x = Fin x"
  using float64_bounds_moderate by (intro round64_normal) linarith+

text \<open>Rounding to an integer stays between the floor and the ceiling.\<close>

lemma round_half_even_between:
  "\<lfloor>r\<rfloor> \<le> round_half_even r" "round_half_even r \<le> \<lceil>r\<rceil>"
proof -
  show "\<lfloor>r\<rfloor> \<le> round_half_even r"
    by (simp add: round_half_even_def)
  show "round_half_even r \<le> \<lceil>r\<rceil>"
  proof (cases "r = real_of_int \<lfloor>r\<rfloor>")
    case True
    then have "round_half_even r = \<lfloor>r\<rfloor>"
      by (simp add: round_half_even_def)
    then show ?thesis
      by (simp add: floor_le_ceiling)
  next
    case False
    then have "\<lceil>r\<rceil> = \<lfloor>r\<rfloor> + 1"
      by (simp add: ceiling_altdef)
    then show ?thesis
      by (simp add: round_half_even_def)
  qed
qed

lemma round_half_even_bounded:
  assumes "\<bar>r\<bar> \<le> real_of_int n"
  shows "\<bar>round_half_even r\<bar> \<le> n"
proof -
  from assms have "r \<le> real_of_int n" and "real_of_int (- n) \<le> r"
    by simp_all
  then have "\<lceil>r\<rceil> \<le> n" and "- n \<le> \<lfloor>r\<rfloor>"
    by (simp_all add: ceiling_le_iff le_floor_iff)
  with round_half_even_between [of r] show ?thesis
    by linarith
qed

lemma round64_below_normal:
  assumes "\<bar>x\<bar> < float64_min_normal"
  shows "round64 x = Fin (real_of_int (round_half_even (x * 2 ^ 1074)) / 2 ^ 1074)"
proof -
  have "float64_min_normal \<le> float64_max"
    by (simp add: float64_min_normal_def float64_max_def)
  with assms float64_max_below_overflow show ?thesis
    by (simp add: round64_def)
qed

text \<open>
  Rounding never crosses a value the machine can hold: a result whose magnitude is at most
  that of such a value is rounded to a finite number with the same property.
\<close>

lemma round64_bounded:
  assumes "valid64 (Fin a)" and "\<bar>z\<bar> \<le> \<bar>a\<bar>"
  shows "\<exists>r. round64 z = Fin r \<and> \<bar>r\<bar> \<le> \<bar>a\<bar>"
proof (cases "float64_min_normal \<le> \<bar>z\<bar>")
  case True
  from assms have "\<bar>z\<bar> \<le> float64_max"
    by simp
  with True have "round64 z = Fin z"
    by (rule round64_normal)
  with assms(2) show ?thesis
    by simp
next
  case False
  define K :: real where "K = 2 ^ 1074"
  have K: "0 < K" and normal: "float64_min_normal * K = real_of_int (2 ^ 52)"
    by (simp_all add: K_def float64_min_normal_def)
  define r where "r = real_of_int (round_half_even (z * K)) / K"
  from False have rounded: "round64 z = Fin r"
    unfolding r_def K_def by (intro round64_below_normal) simp
  have scaled: "\<bar>x * K\<bar> = \<bar>x\<bar> * K" for x
    using K by (simp add: abs_mult)
  obtain n :: int where n: "\<bar>z * K\<bar> \<le> real_of_int n" "real_of_int n \<le> \<bar>a\<bar> * K"
  proof (cases "float64_min_normal \<le> \<bar>a\<bar>")
    case True
    from False K have "\<bar>z\<bar> * K \<le> float64_min_normal * K"
      by (intro mult_right_mono) simp_all
    then have "\<bar>z * K\<bar> \<le> real_of_int (2 ^ 52)"
      by (simp only: scaled normal)
    moreover from True K have "float64_min_normal * K \<le> \<bar>a\<bar> * K"
      by (intro mult_right_mono) simp_all
    then have "real_of_int (2 ^ 52) \<le> \<bar>a\<bar> * K"
      by (simp only: normal)
    ultimately show ?thesis
      by (rule that)
  next
    case small: False
    define m where "m = \<lfloor>a * K\<rfloor>"
    from small assms(1) have grid: "real_of_int m = a * K"
      by (simp add: m_def K_def)
    then have "\<bar>a\<bar> * K = real_of_int \<bar>m\<bar>"
      by (simp only: scaled [symmetric] of_int_abs)
    moreover from assms(2) K have "\<bar>z\<bar> * K \<le> \<bar>a\<bar> * K"
      by (intro mult_right_mono) simp_all
    ultimately have "\<bar>z * K\<bar> \<le> real_of_int \<bar>m\<bar>" and "real_of_int \<bar>m\<bar> \<le> \<bar>a\<bar> * K"
      by (simp_all only: scaled)
    then show ?thesis
      by (rule that)
  qed
  from n(1) have "\<bar>round_half_even (z * K)\<bar> \<le> n"
    by (rule round_half_even_bounded)
  then have "\<bar>real_of_int (round_half_even (z * K))\<bar> \<le> real_of_int n"
    by linarith
  with n(2) have "\<bar>real_of_int (round_half_even (z * K))\<bar> \<le> \<bar>a\<bar> * K"
    by linarith
  with K have "\<bar>r\<bar> \<le> \<bar>a\<bar>"
    by (simp add: r_def field_simps)
  with rounded show ?thesis
    by blast
qed

section \<open>Channels\<close>

subsection \<open>\<open>zip\<close> and \<open>merge_channels\<close>\<close>

lemma zip_star_Nil: "zip_star [] = []"
  by (simp add: zip_star.simps)

lemma zip_star_stop: "[] \<in> set its \<Longrightarrow> zip_star its = []"
  by (simp add: zip_star.simps)

lemma zip_star_step:
  "its \<noteq> [] \<Longrightarrow> [] \<notin> set its \<Longrightarrow> zip_star its = map hd its # zip_star (map tl its)"
  by (subst zip_star.simps) simp

lemma Min_length_tl:
  assumes "its \<noteq> []" and "[] \<notin> set its"
  shows "Min (length ` set its) = Suc (Min (length ` set (map tl its)))"
proof -
  have "length ` set (map tl its) = (\<lambda>n. n - 1) ` (length ` set its)"
    by (simp add: image_image)
  moreover have "mono (\<lambda>n::nat. n - 1)"
    by (rule monoI) simp
  ultimately have "Min (length ` set (map tl its)) = Min (length ` set its) - 1"
    using assms(1) mono_Min_commute [of "\<lambda>n::nat. n - 1" "length ` set its"] by simp
  moreover have "0 < Min (length ` set its)"
    using assms by (auto simp: Min_gr_iff)
  ultimately show ?thesis by simp
qed

lemma length_zip_star:
  "its \<noteq> [] \<Longrightarrow> length (zip_star its) = Min (length ` set its)"
proof (induction its rule: zip_star.induct)
  case (1 its)
  show ?case
  proof (cases "[] \<in> set its")
    case True
    then have "Min (length ` set its) = 0"
      by (intro antisym Min_le) (auto intro: rev_image_eqI)
    with True show ?thesis by (simp add: zip_star_stop)
  next
    case False
    with "1.prems" have "length (zip_star (map tl its)) = Min (length ` set (map tl its))"
      by (intro "1.IH") simp_all
    with False "1.prems" show ?thesis
      by (simp add: zip_star_step Min_length_tl del: set_map)
  qed
qed

lemma nth_zip_star:
  "j < length (zip_star its) \<Longrightarrow> zip_star its ! j = map (\<lambda>c. c ! j) its"
proof (induction its arbitrary: j rule: zip_star.induct)
  case (1 its)
  from "1.prems" have running: "its \<noteq> []" "[] \<notin> set its"
    by (auto simp: zip_star.simps [of its] split: if_splits)
  then have step: "zip_star its = map hd its # zip_star (map tl its)"
    by (rule zip_star_step)
  show ?case
  proof (cases j)
    case 0
    have "map hd its = map (\<lambda>c. c ! 0) its"
    proof (rule map_cong [OF refl])
      fix c assume "c \<in> set its"
      with running(2) have "c \<noteq> []" by auto
      then show "hd c = c ! 0" by (rule hd_conv_nth)
    qed
    with 0 step show ?thesis by simp
  next
    case (Suc j')
    with "1.prems" step have "j' < length (zip_star (map tl its))"
      by simp
    with running have "zip_star (map tl its) ! j' = map (\<lambda>c. c ! j') (map tl its)"
      by (intro "1.IH") simp_all
    moreover have "map (\<lambda>c. c ! j') (map tl its) = map (\<lambda>c. c ! Suc j') its"
    proof (simp, rule ballI)
      fix c assume "c \<in> set its"
      with running(2) have "c \<noteq> []" by auto
      then show "tl c ! j' = c ! Suc j'" by (cases c) simp_all
    qed
    ultimately show ?thesis using Suc step by simp
  qed
qed

lemma length_frames_zip_star: "f \<in> set (zip_star its) \<Longrightarrow> length f = length its"
  by (auto simp: in_set_conv_nth nth_zip_star)

lemma length_concat_uniform:
  "\<forall>r \<in> set xss. length r = k \<Longrightarrow> length (concat xss) = k * length xss"
  by (induction xss) simp_all

lemma nth_concat_uniform:
  "\<forall>r \<in> set xss. length r = k \<Longrightarrow> j < length xss \<Longrightarrow> c < k \<Longrightarrow>
     concat xss ! (j * k + c) = xss ! j ! c"
proof (induction xss arbitrary: j)
  case Nil
  then show ?case by simp
next
  case (Cons r xss)
  show ?case
  proof (cases j)
    case 0
    with Cons.prems show ?thesis by (simp add: nth_append)
  next
    case (Suc j')
    with Cons.prems have "concat xss ! (j' * k + c) = xss ! j' ! c"
      by (intro Cons.IH) simp_all
    with Suc Cons.prems show ?thesis
      by (simp add: nth_append add.assoc)
  qed
qed

text \<open>
  \<open>merge_channels\<close> never raises: the samples it hands to \<open>np.fromiter\<close> are scalars.
\<close>

lemma merge_channels_total: "merge_channels channels = Inr (concat (zip_star channels))"
  by (simp add: merge_channels_def np_fromiter_float_scalars)

text \<open>
  Claim C10: given channels of unequal lengths, \<open>merge_channels\<close> does not fail. With
  \<open>m\<close> the length of the shortest channel and \<open>k\<close> the number of channels, it returns
  \<open>k * m\<close> samples, the frame-major interleaving of the first \<open>m\<close> frames: the sample
  at index \<open>j * k + c\<close> is \<open>channels[c][j]\<close>. What the longer channels hold beyond
  \<open>m\<close> is dropped. (The statement needs at least one channel, for \<open>m\<close> to exist; it
  holds whether or not the lengths differ.)
\<close>

theorem merge_channels_truncates_to_shortest:
  assumes "channels \<noteq> []"
  shows "\<exists>out. merge_channels channels = Inr out
           \<and> length out = length channels * Min (length ` set channels)
           \<and> (\<forall>j < Min (length ` set channels). \<forall>c < length channels.
                 out ! (j * length channels + c) = channels ! c ! j)"
proof -
  let ?frames = "zip_star channels"
  have frames: "length ?frames = Min (length ` set channels)"
    using assms by (rule length_zip_star)
  have uniform: "\<forall>f \<in> set ?frames. length f = length channels"
    by (simp add: length_frames_zip_star)
  have "concat ?frames ! (j * length channels + c) = channels ! c ! j"
    if "j < Min (length ` set channels)" and "c < length channels" for j c
  proof -
    from that frames have j: "j < length ?frames" by simp
    with uniform that(2) have "concat ?frames ! (j * length channels + c) = ?frames ! j ! c"
      by (intro nth_concat_uniform)
    also from j that(2) have "\<dots> = channels ! c ! j"
      by (simp add: nth_zip_star)
    finally show ?thesis .
  qed
  moreover from frames
  have "length (concat ?frames) = length channels * Min (length ` set channels)"
    using length_concat_uniform [OF uniform] by simp
  ultimately show ?thesis
    by (simp add: merge_channels_total)
qed

text \<open>Two channels of lengths 3 and 2: the third sample of the first channel is dropped.\<close>

theorem merge_channels_truncates_to_shortest_witness:
  "[[Fin 1, Fin 2, Fin 3], [Fin 10, Fin 20]] \<noteq> []
   \<and> Min (length ` set [[Fin 1, Fin 2, Fin 3], [Fin 10, Fin 20]]) = 2
   \<and> merge_channels [[Fin 1, Fin 2, Fin 3], [Fin 10, Fin 20]] = Inr [Fin 1, Fin 10, Fin 2, Fin 20]"
  using merge_channels_truncates_to_shortest [of "[[Fin 1, Fin 2, Fin 3], [Fin 10, Fin 20]]"]
  by (simp add: merge_channels_def zip_star.simps)

text \<open>
  Claim C4, as the specification states it: on channels of unequal lengths
  \<open>merge_channels\<close> fails with an error. On \<open>[[1, 2], [3]]\<close> it returns \<open>[1, 3]\<close>.
\<close>

theorem merge_channels_unequal_lengths_counterexample:
  "length [Fin 1, Fin 2] \<noteq> length [Fin 3]
   \<and> merge_channels [[Fin 1, Fin 2], [Fin 3]] = Inr [Fin 1, Fin 3]"
  by (simp add: merge_channels_def zip_star.simps)

text \<open>
  Claim C4, amended: on channels that do not all have the same length \<open>merge_channels\<close>
  raises no error; it returns a sequence, of \<open>k * m\<close> samples for \<open>k\<close> channels of
  which the shortest has length \<open>m\<close>.
\<close>

theorem merge_channels_unequal_lengths_returns:
  assumes "a \<in> set channels" and "b \<in> set channels" and "length a \<noteq> length b"
  shows "\<exists>out. merge_channels channels = Inr out
           \<and> length out = length channels * Min (length ` set channels)"
proof -
  from assms(1) have "channels \<noteq> []" by auto
  then have "length (zip_star channels) = Min (length ` set channels)"
    by (rule length_zip_star)
  moreover have "\<forall>f \<in> set (zip_star channels). length f = length channels"
    by (simp add: length_frames_zip_star)
  then have "length (concat (zip_star channels)) = length channels * length (zip_star channels)"
    by (rule length_concat_uniform)
  ultimately
  have "length (concat (zip_star channels)) = length channels * Min (length ` set channels)"
    by simp
  then show ?thesis
    by (simp add: merge_channels_total)
qed

text \<open>Channels of lengths 3 and 1.\<close>

theorem merge_channels_unequal_lengths_returns_witness:
  "[Fin 5, Fin 6, Fin 7] \<in> set [[Fin 5, Fin 6, Fin 7], [Fin 8]]
   \<and> [Fin 8] \<in> set [[Fin 5, Fin 6, Fin 7], [Fin 8]]
   \<and> length [Fin 5, Fin 6, Fin 7] \<noteq> length [Fin 8]
   \<and> (\<exists>out. merge_channels [[Fin 5, Fin 6, Fin 7], [Fin 8]] = Inr out \<and> length out = 2 * 1)"
  using merge_channels_unequal_lengths_returns
    [of "[Fin 5, Fin 6, Fin 7]" "[[Fin 5, Fin 6, Fin 7], [Fin 8]]" "[Fin 8]"]
  by (simp add: eval_nat_numeral)

text \<open>
  Claim C5: given \<open>k\<close> channels that all have length \<open>n\<close>, \<open>merge_channels\<close> returns
  one sequence of length \<open>k * n\<close> in frame-major interleaved order: the sample at index
  \<open>j * k + c\<close> is \<open>channels[c][j]\<close>, for every frame \<open>j < n\<close> and channel
  \<open>c < k\<close>. In particular \<open>merge_channels([[1,2,3],[10,20,30]])\<close> is
  \<open>[1,10,2,20,3,30]\<close>.
\<close>

theorem merge_channels_interleaves:
  "((\<forall>c \<in> set channels. length c = n) \<longrightarrow>
      (\<exists>out. merge_channels channels = Inr out
         \<and> length out = length channels * n
         \<and> (\<forall>j < n. \<forall>c < length channels. out ! (j * length channels + c) = channels ! c ! j)))
   \<and> merge_channels [[Fin 1, Fin 2, Fin 3], [Fin 10, Fin 20, Fin 30]]
       = Inr [Fin 1, Fin 10, Fin 2, Fin 20, Fin 3, Fin 30]"
proof (intro conjI impI)
  assume equal: "\<forall>c \<in> set channels. length c = n"
  show "\<exists>out. merge_channels channels = Inr out
         \<and> length out = length channels * n
         \<and> (\<forall>j < n. \<forall>c < length channels. out ! (j * length channels + c) = channels ! c ! j)"
  proof (cases "channels = []")
    case True
    then show ?thesis
      by (simp add: merge_channels_total zip_star_Nil)
  next
    case False
    from equal have "length ` set channels = (\<lambda>c. n) ` set channels"
      by (intro image_cong) simp_all
    with False have "length ` set channels = {n}"
      by (simp add: image_constant_conv)
    then have shortest: "length (zip_star channels) = n"
      using False by (simp add: length_zip_star)
    have uniform: "\<forall>f \<in> set (zip_star channels). length f = length channels"
      by (simp add: length_frames_zip_star)
    have "concat (zip_star channels) ! (j * length channels + c) = channels ! c ! j"
      if "j < n" and "c < length channels" for j c
      using that shortest nth_concat_uniform [OF uniform, of j c]
      by (simp add: nth_zip_star)
    moreover from shortest have "length (concat (zip_star channels)) = length channels * n"
      using length_concat_uniform [OF uniform] by simp
    ultimately show ?thesis
      by (simp add: merge_channels_total)
  qed
next
  show "merge_channels [[Fin 1, Fin 2, Fin 3], [Fin 10, Fin 20, Fin 30]]
       = Inr [Fin 1, Fin 10, Fin 2, Fin 20, Fin 3, Fin 30]"
    by (simp add: merge_channels_def zip_star.simps)
qed

text \<open>Three channels of two samples: the sample at index \<open>1 * 3 + 2\<close> is \<open>channels[2][1]\<close>.\<close>

theorem merge_channels_interleaves_witness:
  "(\<exists>out. merge_channels [[Fin 4, Fin 5], [Fin 6, Fin 7], [Fin 8, Fin 9]] = Inr out
      \<and> length out = 3 * 2
      \<and> out ! (1 * 3 + 2) = Fin 9)"
proof -
  let ?channels = "[[Fin 4, Fin 5], [Fin 6, Fin 7], [Fin 8, Fin 9]]"
  from merge_channels_interleaves [of ?channels 2]
  have "(\<forall>c \<in> set ?channels. length c = 2) \<longrightarrow>
      (\<exists>out. merge_channels ?channels = Inr out
         \<and> length out = length ?channels * 2
         \<and> (\<forall>j < 2. \<forall>c < length ?channels. out ! (j * length ?channels + c) = ?channels ! c ! j))"
    by (rule conjunct1)
  then have "\<exists>out. merge_channels ?channels = Inr out
         \<and> length out = length ?channels * 2
         \<and> (\<forall>j < 2. \<forall>c < length ?channels. out ! (j * length ?channels + c) = ?channels ! c ! j)"
    by (rule mp) simp
  then obtain out where out: "merge_channels [[Fin 4, Fin 5], [Fin 6, Fin 7], [Fin 8, Fin 9]] = Inr out"
      "length out = length ?channels * 2"
      "\<forall>j < 2. \<forall>c < length ?channels. out ! (j * length ?channels + c) = ?channels ! c ! j"
    by (elim exE conjE)
  from out(3) [rule_format, of 1 2]
  have "out ! (1 * 3 + 2) = Fin 9"
    by (simp add: eval_nat_numeral)
  moreover from out(2) have "length out = 3 * 2"
    by simp
  ultimately show ?thesis
    using out(1) by blast
qed

subsection \<open>\<open>separate_channels\<close>\<close>

text \<open>
  \<open>separate_channels\<close> hands \<open>np.fromiter\<close> one slice per channel, and
  \<open>np.fromiter(..., float)\<close> stores floats, not arrays: as soon as there is a channel
  to produce, the first slice is rejected.
\<close>

lemma np_fromiter_float_fails:
  "item \<in> set items \<Longrightarrow> setitem_float item = Inl ValueError \<Longrightarrow>
     np_fromiter_float items = Inl ValueError"
proof (induction items)
  case Nil
  then show ?case by simp
next
  case (Cons i items)
  have err: "e = ValueError" if "setitem_float i = Inl e" for e
    using that by (cases i rule: setitem_float.cases) simp_all
  show ?case
  proof (cases "setitem_float i")
    case (Inl e)
    with err show ?thesis by simp
  next
    case (Inr x)
    with Cons have "np_fromiter_float items = Inl ValueError" by auto
    with Inr show ?thesis by simp
  qed
qed

lemma separate_channels_fails:
  assumes "0 < n"
  shows "separate_channels samples n = Inl ValueError"
proof -
  from assms have "Array (slice_from_step samples 0 (nat n))
      \<in> set (map (\<lambda>i. Array (slice_from_step samples i (nat n))) (py_range n))"
    by (simp add: py_range_def)
  then show ?thesis
    unfolding separate_channels_def by (rule np_fromiter_float_fails) (rule setitem_float_array)
qed

lemma separate_channels_no_channels: "n \<le> 0 \<Longrightarrow> separate_channels samples n = Inr []"
  by (simp add: separate_channels_def py_range_def)

text \<open>
  Claim C3 says that \<open>separate_channels(merge_channels([a, b]), 2)\<close> is \<open>[a, b]\<close>, which
  is also what the comment on line 23 announces,
  \<open>[samples[i::num_channels] for i in range(num_channels)]\<close>. The program raises instead:
  for \<open>a = [1, 2]\<close> and \<open>b = [10, 20]\<close> the merged sequence is \<open>[1, 10, 2, 20]\<close>,
  its two slices have two samples each, and \<open>np.fromiter\<close> rejects the first.
\<close>

theorem separate_channels_after_merge_raises:
  "merge_channels [[Fin 1, Fin 2], [Fin 10, Fin 20]] = Inr [Fin 1, Fin 10, Fin 2, Fin 20]
   \<and> separate_channels [Fin 1, Fin 10, Fin 2, Fin 20] 2 = Inl ValueError"
  by (simp add: merge_channels_def zip_star.simps separate_channels_def py_range_def
      slice_from_step_def upt_conv_Cons)

text \<open>The same for any two channels.\<close>

lemma separate_channels_after_merge_two:
  assumes "merge_channels [a, b] = Inr merged"
  shows "separate_channels merged 2 = Inl ValueError"
  by (rule separate_channels_fails) simp

section \<open>Time base\<close>



lemma round64_exact_or_zero:
  "x = 0 \<or> 1 / 2 ^ 64 \<le> \<bar>x\<bar> \<Longrightarrow> \<bar>x\<bar> \<le> 2 ^ 64 \<Longrightarrow> round64 x = Fin x"
  by (auto simp: round64_zero round64_exact)

lemma list_update_last_same:
  assumes "0 < n"
  shows "(map f [0..<n])[n - 1 := f (n - 1)] = map f [0..<n]"
  using assms by (intro nth_equalityI) (simp_all add: nth_list_update)

lemma np_linspace_points:
  assumes "1 < n" and "fl_div (fl_sub stop start) (Fin (real_of_int (n - 1))) = step"
    and "step \<noteq> Fin 0"
  shows "np_linspace start stop (PyInt n)
         = Inr ((map (\<lambda>v. fl_add v start)
                  (map (\<lambda>v. fl_mul v step) (map (\<lambda>i. Fin (real i)) [0..<nat n])))
                [nat n - 1 := stop])"
  using assms
  by (simp add: np_linspace_def Let_def del: fl_add.simps fl_mul.simps fl_div.simps)

text \<open>
  A duration that is a positive \<open>int\<close>, with at most \<open>2^53\<close> points so that the
  conversions of the integers to \<open>float64\<close> are exact: the time points are the multiples
  of the step \<open>duration / (N - 1)\<close>, and the last one, overwritten with the duration,
  is the last multiple.
\<close>

lemma time_points_int_duration:
  assumes "0 < d" and "d * SAMPLING_FREQ \<le> 2 ^ 53"
  shows "generate_sample_time_points (PyInt d)
         = Inr (map (\<lambda>i. Fin (real i * (real_of_int d / real_of_int (d * SAMPLING_FREQ - 1))))
                  [0..<nat (d * SAMPLING_FREQ)])"
proof -
  define n where "n = d * SAMPLING_FREQ"
  define s where "s = real_of_int d"
  define step where "step = s / real_of_int (n - 1)"
  let ?f = "\<lambda>i. Fin (real i * step)"
  from assms have n: "1 < n" "d \<le> n - 1" "n \<le> 2 ^ 53" "n = d * 44100"
    by (simp_all add: n_def SAMPLING_FREQ_def)
  from assms(1) have s1: "1 \<le> s"
    unfolding s_def by linarith
  from n(2) have s2: "s \<le> real_of_int (n - 1)"
    unfolding s_def by linarith
  from n(3) have "real_of_int n \<le> real_of_int (2 ^ 53)"
    by (rule of_int_le_iff [THEN iffD2])
  then have s3: "real_of_int n \<le> 2 ^ 53"
    by simp
  note s = s1 s2 s3
  have "s * 44100 = real_of_int n"
    by (simp add: s_def n(4))
  with s(1) have "real_of_int (n - 1) \<le> s * 44100"
    by simp
  with s(1,2) have step: "1 / 44100 \<le> step" "step \<le> 1"
    by (simp_all add: step_def field_simps)
  from s have delta: "fl_sub (Fin s) (Fin 0) = Fin s"
    by (simp add: fl_sub_def round64_exact)
  from step have "round64 step = Fin step"
    by (intro round64_exact) simp_all
  moreover from n(1) have "real_of_int (n - 1) \<noteq> 0"
    by simp
  ultimately have rounded_step: "fl_div (Fin s) (Fin (real_of_int (n - 1))) = Fin step"
    unfolding step_def by (simp only: fl_div.simps if_False)
  from step have nonzero: "step \<noteq> 0"
    by simp
  have point: "fl_add (fl_mul (Fin (real i)) (Fin step)) (Fin 0) = Fin (real i * step)"
    if "i < nat n" for i
  proof -
    have "real i * step = 0 \<or> 1 / 2 ^ 64 \<le> \<bar>real i * step\<bar>"
    proof (cases "i = 0")
      case False
      then have "1 \<le> real i"
        by simp
      moreover from step(1) have "0 \<le> step"
        by simp
      ultimately have "1 * step \<le> real i * step"
        by (rule mult_right_mono)
      with step(1) have "1 / 44100 \<le> real i * step"
        by linarith
      moreover have "(1 :: real) / 2 ^ 64 \<le> 1 / 44100"
        by simp
      ultimately have "1 / 2 ^ 64 \<le> \<bar>real i * step\<bar>"
        by linarith
      then show ?thesis ..
    qed simp
    note lower = this
    from that s(3) have "real i \<le> 2 ^ 53"
      by linarith
    with step have "real i * step \<le> 2 ^ 53 * 1"
      by (intro mult_mono) simp_all
    moreover from step(1) have "0 \<le> real i * step"
      by simp
    moreover have "(2 :: real) ^ 53 * 1 \<le> 2 ^ 64"
      by simp
    ultimately have "\<bar>real i * step\<bar> \<le> 2 ^ 64"
      by linarith
    with lower have "round64 (real i * step) = Fin (real i * step)"
      by (rule round64_exact_or_zero)
    then show ?thesis
      by simp
  qed
  have points: "map (\<lambda>v. fl_add v (Fin 0)) (map (\<lambda>v. fl_mul v (Fin step)) (map (\<lambda>i. Fin (real i)) [0..<nat n]))
      = map ?f [0..<nat n]"
    unfolding map_map by (rule map_cong [OF refl]) (simp add: point del: fl_add.simps fl_mul.simps)
  have "real (nat n - 1) * step = s"
    using n(1) by (simp add: step_def of_nat_diff)
  then have "Fin s = ?f (nat n - 1)"
    by simp
  moreover have "(map ?f [0..<nat n])[nat n - 1 := ?f (nat n - 1)] = map ?f [0..<nat n]"
    using n(1) by (intro list_update_last_same) simp
  ultimately have last: "(map ?f [0..<nat n])[nat n - 1 := Fin s] = map ?f [0..<nat n]"
    by simp
  from rounded_step have "fl_div (fl_sub (Fin s) (Fin 0)) (Fin (real_of_int (n - 1))) = Fin step"
    by (simp only: delta)
  moreover from nonzero have "Fin step \<noteq> Fin 0"
    by simp
  ultimately
  have "np_linspace (Fin 0) (Fin s) (PyInt n)
      = Inr ((map (\<lambda>v. fl_add v (Fin 0))
               (map (\<lambda>v. fl_mul v (Fin step)) (map (\<lambda>i. Fin (real i)) [0..<nat n])))
             [nat n - 1 := Fin s])"
    using n(1) by (intro np_linspace_points)
  then have "np_linspace (Fin 0) (Fin s) (PyInt n) = Inr ((map ?f [0..<nat n])[nat n - 1 := Fin s])"
    by (simp only: points)
  with last have "np_linspace (Fin 0) (Fin s) (PyInt n) = Inr (map ?f [0..<nat n])"
    by (rule subst)
  then show ?thesis
    by (simp add: generate_sample_time_points_def n_def s_def step_def)
qed

text \<open>
  For such a duration the time points are \<open>duration * SAMPLING_FREQ\<close> in number (which
  is \<open>round(duration * SAMPLING_FREQ)\<close>), strictly increasing, the first 0 and the last
  equal to the duration, evenly spaced.
\<close>

lemma time_points_positive_int_duration:
  assumes "0 < d" and "d * SAMPLING_FREQ \<le> 2 ^ 53"
  shows "\<exists>ts. generate_sample_time_points (PyInt d) = Inr ts
           \<and> length ts = nat (d * SAMPLING_FREQ)
           \<and> int (length ts) = round (real_of_int d * real_of_int SAMPLING_FREQ)
           \<and> sorted_wrt fl_less ts
           \<and> hd ts = Fin 0
           \<and> last ts = Fin (real_of_int d)
           \<and> (\<forall>i < length ts. ts ! i = Fin (real i * (real_of_int d / real (length ts - 1))))"
proof -
  define N where "N = nat (d * SAMPLING_FREQ)"
  define step where "step = real_of_int d / real (N - 1)"
  define ts where "ts = map (\<lambda>i. Fin (real i * step)) [0..<N]"
  from assms(1) have N: "1 < N"
    by (simp add: N_def SAMPLING_FREQ_def)
  then have "real (N - 1) = real_of_int (d * SAMPLING_FREQ - 1)"
    by (simp add: N_def of_nat_diff)
  with assms have returned: "generate_sample_time_points (PyInt d) = Inr ts"
    by (simp add: time_points_int_duration ts_def step_def N_def)
  have len: "length ts = N"
    by (simp add: ts_def)
  from assms(1) N have step: "0 < step"
    by (simp add: step_def)
  have "int N = d * SAMPLING_FREQ"
    using assms(1) by (simp add: N_def SAMPLING_FREQ_def)
  then have rounded: "int N = round (real_of_int d * real_of_int SAMPLING_FREQ)"
    by (metis of_int_mult round_of_int)
  have "sorted_wrt (\<lambda>i j. fl_less (Fin (real i * step)) (Fin (real j * step))) [0..<N]"
    using step by (intro sorted_wrt_mono_rel [OF _ sorted_wrt_upt]) simp
  then have increasing: "sorted_wrt fl_less ts"
    by (simp add: ts_def sorted_wrt_map)
  from N have first: "hd ts = Fin 0"
    by (simp add: ts_def hd_map upt_conv_Cons)
  from N have "last ts = Fin (real (N - 1) * step)"
    by (simp add: ts_def last_map last_upt)
  also from N have "real (N - 1) * step = real_of_int d"
    by (simp add: step_def)
  finally have final: "last ts = Fin (real_of_int d)" .
  have spaced: "\<forall>i < length ts. ts ! i = Fin (real i * (real_of_int d / real (length ts - 1)))"
    by (simp add: ts_def step_def)
  show ?thesis
  proof (intro exI conjI)
    show "generate_sample_time_points (PyInt d) = Inr ts" by (rule returned)
    show "length ts = nat (d * SAMPLING_FREQ)" using len by (simp only: N_def)
    show "int (length ts) = round (real_of_int d * real_of_int SAMPLING_FREQ)"
      using rounded by (simp only: len)
    show "sorted_wrt fl_less ts" by (rule increasing)
    show "hd ts = Fin 0" by (rule first)
    show "last ts = Fin (real_of_int d)" by (rule final)
    show "\<forall>i < length ts. ts ! i = Fin (real i * (real_of_int d / real (length ts - 1)))"
      by (rule spaced)
  qed
qed

text \<open>
  Claim C7 says that for every duration \<open>> 0\<close> the function returns
  \<open>round(duration * SAMPLING_FREQ)\<close> strictly increasing values from 0 to the duration;
  the comment on lines 27 and 28 announces \<open>duration * SAMPLING_FREQ\<close> samples. For
  the \<open>int\<close> 30 the program returns them: 1323000 points, strictly increasing, from 0 to
  30. For the \<open>float\<close> 30.0, which \<open>main\<close> passes on lines 126 and 128, the product
  \<open>duration * SAMPLING_FREQ\<close> is the float 1323000.0, the program hands it to
  \<open>np.linspace\<close> as the number of points without converting it, and the call raises
  \<open>TypeError\<close>.
\<close>

theorem time_points_float_duration_raises:
  "generate_sample_time_points (PyFloat (Fin 30)) = Inl TypeError
   \<and> (\<exists>ts. generate_sample_time_points (PyInt 30) = Inr ts \<and> length ts = 1323000
          \<and> hd ts = Fin 0 \<and> last ts = Fin 30 \<and> sorted_wrt fl_less ts)"
proof (rule conjI)
  show "generate_sample_time_points (PyFloat (Fin 30)) = Inl TypeError"
    by (simp add: generate_sample_time_points_def np_linspace_def)
next
  have "(0 :: int) < 30" and "30 * SAMPLING_FREQ \<le> 2 ^ 53"
    by (simp_all add: SAMPLING_FREQ_def)
  then obtain ts where ts: "generate_sample_time_points (PyInt 30) = Inr ts"
    "length ts = nat (30 * SAMPLING_FREQ)" "sorted_wrt fl_less ts" "hd ts = Fin 0"
    "last ts = Fin (real_of_int 30)"
    using time_points_positive_int_duration [of 30] by blast
  from ts(2) have "length ts = 1323000"
    by (simp add: SAMPLING_FREQ_def)
  moreover from ts(5) have "last ts = Fin 30"
    by simp
  ultimately show "\<exists>ts. generate_sample_time_points (PyInt 30) = Inr ts \<and> length ts = 1323000
          \<and> hd ts = Fin 0 \<and> last ts = Fin 30 \<and> sorted_wrt fl_less ts"
    using ts(1,3,4) by (intro exI [of _ ts] conjI)
qed

text \<open>The same for every \<open>float\<close> duration.\<close>

lemma time_points_float_duration_always_raises:
  "generate_sample_time_points (PyFloat x) = Inl TypeError"
  by (simp add: generate_sample_time_points_def np_linspace_def)

section \<open>Sine wave\<close>




lemma fl_abs_inf_of: "fl_abs (inf_of s) = PInf \<or> fl_abs (inf_of s) = NaN"
  by simp




lemma sine_returns:
  assumes "sine freq amplitude duration = Inr ys"
  obtains ts where "generate_sample_time_points duration = Inr ts"
    and "ys = map (\<lambda>t. fl_mul amplitude (fl_sin (fl_mul (fl_mul (fl_mul freq (Fin 2)) (Fin np_pi)) t))) ts"
  using assms by (auto simp: sine_def split: sum.splits)



text \<open>
  A frequency from \<open>2^1023\<close> on: \<open>f * 2\<close> is already infinite, the angle is infinite
  or NaN, and every sample is NaN.
\<close>

lemma fl_sin_infinite: "fl_sin (fl_mul PInf t) = NaN"
  by (cases t) simp_all

lemma fl_mul_NaN: "fl_mul x NaN = NaN"
  by (cases x) simp_all

lemma frequency_overflow_example: "fl_mul (Fin (2 ^ 1023)) (Fin 2) = PInf"
  by (simp add: round64_def)

lemma sine_overflow:
  assumes "fl_mul freq (Fin 2) = PInf" and "sine freq amplitude duration = Inr ys"
    and "i < length ys"
  shows "ys ! i = NaN"
proof -
  have pi: "fl_mul PInf (Fin np_pi) = PInf"
    by (simp add: np_pi_def)
  from assms(2) obtain ts
    where ys: "ys = map (\<lambda>t. fl_mul amplitude
        (fl_sin (fl_mul (fl_mul (fl_mul freq (Fin 2)) (Fin np_pi)) t))) ts"
    by (rule sine_returns)
  with assms(3) have "i < length ts"
    by simp
  then have "ys ! i = fl_mul amplitude
      (fl_sin (fl_mul (fl_mul (fl_mul freq (Fin 2)) (Fin np_pi)) (ts ! i)))"
    unfolding ys by (rule nth_map)
  then show ?thesis
    by (simp only: assms(1) pi fl_sin_infinite fl_mul_NaN)
qed

section \<open>Normalisation\<close>

lemma fl_maximum_Fin: "fl_maximum (Fin a) (Fin b) = Fin (max a b)"
  by (simp add: max_def)

lemma foldl_fl_maximum_Fin: "foldl fl_maximum (Fin a) (map Fin xs) = Fin (fold max xs a)"
  by (induction xs arbitrary: a) (simp_all add: fl_maximum_Fin max.commute)

lemma np_max_Fin: "xs \<noteq> [] \<Longrightarrow> np_max (map Fin xs) = Inr (Fin (Max (set xs)))"
  by (cases xs) (simp_all add: np_max_def foldl_fl_maximum_Fin Max.set_eq_fold del: set_simps)

lemma np_max_abs: "xs \<noteq> [] \<Longrightarrow> np_max (map fl_abs (map Fin xs)) = Inr (Fin (Max (abs ` set xs)))"
  using np_max_Fin [of "map abs xs"] by (simp add: o_def)

lemma peak_zero_iff:
  assumes "xs \<noteq> []"
  shows "Max (abs ` set xs) = 0 \<longleftrightarrow> (\<forall>x \<in> set xs. x = (0::real))"
proof
  assume zero: "Max (abs ` set xs) = 0"
  show "\<forall>x \<in> set xs. x = 0"
  proof
    fix x assume "x \<in> set xs"
    then have "\<bar>x\<bar> \<le> Max (abs ` set xs)"
      by (intro Max_ge) simp_all
    with zero show "x = 0" by simp
  qed
next
  assume "\<forall>x \<in> set xs. x = 0"
  then have "abs ` set xs = (\<lambda>x. 0) ` set xs"
    by (intro image_cong) simp_all
  with assms show "Max (abs ` set xs) = 0"
    by (simp add: image_constant_conv)
qed

lemma peak_nonneg:
  assumes "xs \<noteq> []"
  shows "0 \<le> Max (abs ` set (xs :: real list))"
proof -
  from assms obtain x where "x \<in> set xs" by (cases xs) auto
  then have "\<bar>x\<bar> \<le> Max (abs ` set xs)"
    by (intro Max_ge) simp_all
  then show ?thesis by simp
qed


text \<open>A non-empty signal of zeros: the peak is 0, the coefficient infinite or NaN.\<close>

lemma normalize_degenerate:
  assumes "samples \<noteq> []" and "\<forall>x \<in> set samples. x = 0"
  shows "normalize_samples (map Fin samples) (Fin target) = Inr (replicate (length samples) NaN)"
proof -
  from assms have "Max (abs ` set samples) = 0"
    by (simp add: peak_zero_iff)
  with assms(1) np_max_abs [of samples]
  have "np_max (map fl_abs (map Fin samples)) = Inr (Fin 0)"
    by simp
  moreover have "fl_mul (fl_div (Fin target) (Fin 0)) (Fin 0) = NaN"
    by simp
  moreover from assms(2) have "map Fin samples = replicate (length samples) (Fin 0)"
    by (intro replicate_eqI) auto
  ultimately show ?thesis
    by (simp add: normalize_samples_def del: fl_div.simps)
qed

text \<open>
  A signal with a sample other than zero, when the quotient \<open>target / peak\<close> and the
  target are at least a factor 2 inside the normal range of \<open>float64\<close>.
\<close>

lemma normalize_in_range:
  assumes nonzero: "\<exists>x \<in> set samples. x \<noteq> 0"
    and quotient: "2 * float64_min_normal \<le> \<bar>target / Max (abs ` set samples)\<bar>"
      "\<bar>target / Max (abs ` set samples)\<bar> \<le> float64_max / 2"
    and target: "2 * float64_min_normal \<le> \<bar>target\<bar>" "\<bar>target\<bar> \<le> float64_max / 2"
  shows "\<exists>peak normalized. np_max (map fl_abs (map Fin samples)) = Inr (Fin peak) \<and> 0 < peak
           \<and> normalized = map (\<lambda>x. fl_mul (Fin (target / peak)) (Fin x)) samples
           \<and> normalize_samples (map Fin samples) (Fin target) = Inr normalized
           \<and> np_max (map fl_abs normalized) = Inr (Fin \<bar>target\<bar>)"
proof -
  from nonzero have nonempty: "samples \<noteq> []"
    by auto
  define peak where "peak = Max (abs ` set samples)"
  define c where "c = target / peak"
  define normalized where "normalized = map (\<lambda>x. fl_mul (Fin c) (Fin x)) samples"
  have max_sample: "np_max (map fl_abs (map Fin samples)) = Inr (Fin peak)"
    unfolding peak_def using nonempty by (rule np_max_abs)
  from nonzero nonempty have "peak \<noteq> 0"
    by (simp add: peak_def peak_zero_iff)
  with peak_nonneg [OF nonempty] have positive: "0 < peak"
    by (simp add: peak_def)
  have small: "float64_min_normal \<le> 2 * float64_min_normal"
    using float64_min_normal_pos by simp
  have large: "float64_max / 2 \<le> float64_max"
    by (simp add: float64_max_def)
  from quotient small large have "round64 c = Fin c"
    unfolding c_def peak_def by (intro round64_normal) linarith+
  with positive have coeff: "fl_div (Fin target) (Fin peak) = Fin c"
    by (simp add: c_def)
  with max_sample
  have returned: "normalize_samples (map Fin samples) (Fin target) = Inr normalized"
    by (simp add: normalize_samples_def normalized_def o_def del: fl_div.simps fl_mul.simps)
  from target small large have valid: "valid64 (Fin target)"
    by simp
  from target small large have exact: "round64 target = Fin target" "round64 (- target) = Fin (- target)"
    by (intro round64_normal; simp; linarith)+
  define rs where "rs = map (\<lambda>x. case round64 (c * x) of Fin r \<Rightarrow> r | _ \<Rightarrow> 0) samples"
  have each: "\<exists>r. round64 (c * x) = Fin r \<and> \<bar>r\<bar> \<le> \<bar>target\<bar>" if "x \<in> set samples" for x
  proof -
    from that have "\<bar>x\<bar> \<le> peak"
      unfolding peak_def by (intro Max_ge) simp_all
    then have "\<bar>target\<bar> * \<bar>x\<bar> \<le> \<bar>target\<bar> * peak"
      by (intro mult_left_mono) simp_all
    with positive have "\<bar>c * x\<bar> \<le> \<bar>target\<bar>"
      by (simp add: c_def abs_mult field_simps)
    with valid show ?thesis
      by (rule round64_bounded)
  qed
  have finite: "normalized = map Fin rs"
    unfolding normalized_def rs_def map_map
  proof (rule map_cong [OF refl])
    fix x assume "x \<in> set samples"
    then obtain r where "round64 (c * x) = Fin r"
      using each by blast
    then show "fl_mul (Fin c) (Fin x) = (Fin \<circ> (\<lambda>x. case round64 (c * x) of Fin r \<Rightarrow> r | _ \<Rightarrow> 0)) x"
      by simp
  qed
  have bounded: "\<forall>v \<in> abs ` set rs. v \<le> \<bar>target\<bar>"
  proof (intro ballI)
    fix v assume "v \<in> abs ` set rs"
    then obtain x where x: "x \<in> set samples"
      and v: "v = \<bar>case round64 (c * x) of Fin r \<Rightarrow> r | _ \<Rightarrow> 0\<bar>"
      by (auto simp: rs_def)
    from each [OF x] v show "v \<le> \<bar>target\<bar>"
      by auto
  qed
  have "peak \<in> abs ` set samples"
    unfolding peak_def using nonempty by (intro Max_in) simp_all
  then obtain k where k: "k \<in> set samples" "\<bar>k\<bar> = peak"
    by auto
  with positive have "c * k = target \<or> c * k = - target"
    by (auto simp: c_def abs_if split: if_splits)
  with exact have "\<bar>case round64 (c * k) of Fin r \<Rightarrow> r | _ \<Rightarrow> 0\<bar> = \<bar>target\<bar>"
    by auto
  moreover from k(1) have "(case round64 (c * k) of Fin r \<Rightarrow> r | _ \<Rightarrow> 0) \<in> set rs"
    unfolding rs_def set_map by (rule imageI)
  then have "\<bar>case round64 (c * k) of Fin r \<Rightarrow> r | _ \<Rightarrow> 0\<bar> \<in> abs ` set rs"
    by (rule imageI)
  ultimately have attained: "\<bar>target\<bar> \<in> abs ` set rs"
    by simp
  have "Max (abs ` set rs) = \<bar>target\<bar>"
  proof (rule Max_eqI)
    show "finite (abs ` set rs)" by simp
    show "y \<le> \<bar>target\<bar>" if "y \<in> abs ` set rs" for y
      using bounded that by (rule bspec)
    show "\<bar>target\<bar> \<in> abs ` set rs" by (rule attained)
  qed
  moreover from nonempty have "rs \<noteq> []"
    by (simp add: rs_def)
  then have "np_max (map fl_abs (map Fin rs)) = Inr (Fin (Max (abs ` set rs)))"
    by (rule np_max_abs)
  ultimately have "np_max (map fl_abs normalized) = Inr (Fin \<bar>target\<bar>)"
    by (simp only: finite)
  with max_sample positive returned show ?thesis
    unfolding normalized_def c_def by blast
qed

text \<open>
  Claim C2, as the specification states it: on a signal whose samples are all zero
  \<open>normalize\<close> fails with an error instead of propagating NaN. The program divides
  the target by the peak \<open>0.0\<close> as NumPy does, which gives an infinity and no exception,
  and multiplies the zeros by it: the result is an array of NaN.
\<close>

theorem normalize_zero_signal_counterexample:
  "normalize_samples [Fin 0, Fin 0] (Fin 1) = Inr [NaN, NaN]"
  by (simp add: normalize_samples_def np_max_def)

text \<open>
  Claim C2, amended, for finite samples and a finite target. On an empty sequence
  \<open>normalize\<close> raises the \<open>ValueError\<close> of \<open>np.max\<close>. On a non-empty
  sequence of zeros it raises nothing and returns as many NaN. Otherwise, provided that
  neither \<open>target / peak\<close> nor \<open>target\<close> overflows or underflows (both are at least a
  factor 2 inside the normal range of \<open>float64\<close>, from \<open>2^-1022\<close> to the largest
  finite value), it returns \<open>(target / peak) * samples\<close>, with \<open>peak\<close> the greatest
  absolute value of the samples, and the greatest absolute value of the result is
  \<open>|target|\<close>: the target itself when it is not negative. The equality is exact in the
  arithmetic written here, which does not round inside the normal range; on the machine
  it holds up to the rounding of the division and of the product.
\<close>

theorem normalize_samples_peak:
  "normalize_samples [] (Fin target) = Inl ValueError
   \<and> (samples \<noteq> [] \<and> (\<forall>x \<in> set samples. x = 0) \<longrightarrow>
        normalize_samples (map Fin samples) (Fin target) = Inr (replicate (length samples) NaN))
   \<and> ((\<exists>x \<in> set samples. x \<noteq> 0)
        \<and> 2 * float64_min_normal \<le> \<bar>target / Max (abs ` set samples)\<bar>
        \<and> \<bar>target / Max (abs ` set samples)\<bar> \<le> float64_max / 2
        \<and> 2 * float64_min_normal \<le> \<bar>target\<bar> \<and> \<bar>target\<bar> \<le> float64_max / 2 \<longrightarrow>
        (\<exists>peak normalized. np_max (map fl_abs (map Fin samples)) = Inr (Fin peak) \<and> 0 < peak
           \<and> normalized = map (\<lambda>x. fl_mul (Fin (target / peak)) (Fin x)) samples
           \<and> normalize_samples (map Fin samples) (Fin target) = Inr normalized
           \<and> np_max (map fl_abs normalized) = Inr (Fin \<bar>target\<bar>)))"
proof (intro conjI impI)
  show "normalize_samples [] (Fin target) = Inl ValueError"
    by (simp add: normalize_samples_def np_max_def)
next
  assume "samples \<noteq> [] \<and> (\<forall>x \<in> set samples. x = 0)"
  then show "normalize_samples (map Fin samples) (Fin target)
      = Inr (replicate (length samples) NaN)"
    by (intro normalize_degenerate) simp_all
next
  assume "(\<exists>x \<in> set samples. x \<noteq> 0)
        \<and> 2 * float64_min_normal \<le> \<bar>target / Max (abs ` set samples)\<bar>
        \<and> \<bar>target / Max (abs ` set samples)\<bar> \<le> float64_max / 2
        \<and> 2 * float64_min_normal \<le> \<bar>target\<bar> \<and> \<bar>target\<bar> \<le> float64_max / 2"
  then show "\<exists>peak normalized. np_max (map fl_abs (map Fin samples)) = Inr (Fin peak) \<and> 0 < peak
           \<and> normalized = map (\<lambda>x. fl_mul (Fin (target / peak)) (Fin x)) samples
           \<and> normalize_samples (map Fin samples) (Fin target) = Inr normalized
           \<and> np_max (map fl_abs normalized) = Inr (Fin \<bar>target\<bar>)"
    by (intro normalize_in_range) blast+
qed

text \<open>The samples \<open>[2, -4]\<close> normalised to 1, and three zeros.\<close>

theorem normalize_samples_peak_witness:
  "normalize_samples [Fin 2, Fin (- 4)] (Fin 1) = Inr [Fin (1 / 2), Fin (- 1)]
   \<and> np_max (map fl_abs [Fin (1 / 2), Fin (- 1)]) = Inr (Fin 1)
   \<and> normalize_samples [Fin 0, Fin 0, Fin 0] (Fin 1) = Inr [NaN, NaN, NaN]"
proof -
  have peak4: "Max (abs ` set [2, - 4 :: real]) = 4"
    by simp
  have "(\<exists>x \<in> set [2, - 4 :: real]. x \<noteq> 0)
        \<and> 2 * float64_min_normal \<le> \<bar>1 / Max (abs ` set [2, - 4 :: real])\<bar>
        \<and> \<bar>1 / Max (abs ` set [2, - 4 :: real])\<bar> \<le> float64_max / 2
        \<and> 2 * float64_min_normal \<le> \<bar>1 :: real\<bar> \<and> \<bar>1 :: real\<bar> \<le> float64_max / 2"
    unfolding peak4 by (simp add: float64_min_normal_def float64_max_def)
  with normalize_samples_peak [of 1 "[2, - 4]"]
  obtain peak normalized where peak: "np_max (map fl_abs (map Fin [2, - 4])) = Inr (Fin peak)"
    and normalized: "normalized = map (\<lambda>x. fl_mul (Fin (1 / peak)) (Fin x)) [2, - 4]"
    and returned: "normalize_samples (map Fin [2, - 4]) (Fin 1) = Inr normalized"
    and target: "np_max (map fl_abs normalized) = Inr (Fin \<bar>1\<bar>)"
    by blast
  from peak have "peak = 4"
    by (simp add: np_max_def)
  with normalized have "normalized = [Fin (1 / 2), Fin (- 1)]"
    by (simp add: round64_exact)
  with returned target
  have "normalize_samples [Fin 2, Fin (- 4)] (Fin 1) = Inr [Fin (1 / 2), Fin (- 1)]"
    and "np_max (map fl_abs [Fin (1 / 2), Fin (- 1)]) = Inr (Fin 1)"
    by simp_all
  moreover have "[0, 0, 0 :: real] \<noteq> [] \<and> (\<forall>x \<in> set [0, 0, 0 :: real]. x = 0)"
    by simp
  with normalize_samples_peak [of 1 "[0, 0, 0]"]
  have "normalize_samples (map Fin [0, 0, 0]) (Fin 1) = Inr (replicate (length [0, 0, 0 :: real]) NaN)"
    by blast
  then have "normalize_samples [Fin 0, Fin 0, Fin 0] (Fin 1) = Inr [NaN, NaN, NaN]"
    by (simp add: eval_nat_numeral)
  ultimately show ?thesis
    by (intro conjI)
qed

text \<open>
  Outside that range the quotient can overflow: the peak 0.25 and the target \<open>2^1023\<close>
  give an infinite coefficient and an infinite sample.
\<close>

lemma normalize_overflow_example:
  "normalize_samples [Fin (1 / 4)] (Fin (2 ^ 1023)) = Inr [PInf]"
  by (simp add: normalize_samples_def np_max_def round64_def)

section \<open>The 16-bit codec\<close>

subsection \<open>Encoding\<close>

lemma length_tobytes_i2: "length (tobytes_i2 ws) = 2 * length ws"
  by (induction ws) (simp_all add: tobytes_i2_def)

lemma length_convert_to_bytes: "length (convert_to_bytes samples) = 2 * length samples"
  by (simp add: convert_to_bytes_def length_tobytes_i2)

text \<open>
  Claim C6, as the specification states it: \<open>convert_to_bytes([1.0, -1.0, 0.0])\<close> is the
  buffer \<open>7F FF 81 FF 00 00\<close>. The program stores little-endian \<open>int16\<close> values, low
  byte first, so the buffer is not that one.
\<close>

theorem convert_to_bytes_example_counterexample:
  "convert_to_bytes [Fin 1, Fin (- 1), Fin 0] \<noteq> [0x7F, 0xFF, 0x81, 0xFF, 0x00, 0x00]"
  by (simp add: convert_to_bytes_def max_int_value np_clip_def astype_i2_def trunc_def
      tobytes_i2_def round64_exact round64_zero)

text \<open>
  Claim C6, amended: \<open>convert_to_bytes([1.0, -1.0, 0.0])\<close> is the buffer
  \<open>FF 7F 01 80 00 00\<close>, the little-endian encoding of the \<open>int16\<close> values
  \<open>32767 = 0x7FFF\<close>, \<open>-32767 = 0x8001\<close> and \<open>0\<close>, obtained by clipping to
  \<open>[-1, 1]\<close>, scaling by \<open>MAX_INT_SAMPLE_VALUE\<close> and truncating towards zero.
\<close>

theorem convert_to_bytes_example:
  "convert_to_bytes [Fin 1, Fin (- 1), Fin 0] = [0xFF, 0x7F, 0x01, 0x80, 0x00, 0x00]"
  by (simp add: convert_to_bytes_def max_int_value np_clip_def astype_i2_def trunc_def
      tobytes_i2_def round64_exact round64_zero)

subsection \<open>What \<open>convert_to_samples\<close> returns\<close>

text \<open>
  On a buffer of odd length \<open>np.frombuffer\<close> raises; on any other buffer the body runs
  to its end and the call evaluates to \<open>None\<close>, never to an array.
\<close>

lemma convert_to_samples_odd:
  "odd (length bytes) \<Longrightarrow> convert_to_samples bytes = Inl ValueError"
  by (simp add: convert_to_samples_def convert_to_samples_local_def np_frombuffer_i2_def
      odd_iff_mod_2_eq_one)

lemma convert_to_samples_even:
  "even (length bytes) \<Longrightarrow> convert_to_samples bytes = Inr None"
  by (simp add: convert_to_samples_def convert_to_samples_local_def np_frombuffer_i2_def)

lemma convert_to_samples_never_an_array: "convert_to_samples bytes \<noteq> Inr (Some samples)"
  by (simp add: convert_to_samples_def split: sum.splits)

subsection \<open>The value the body computes\<close>

text \<open>
  The array that line 95 assigns to \<open>samples\<close>, and then drops, is the decoding the
  specification describes: on the encoding of samples in \<open>[-1, 1]\<close> it is within one
  quantization step of them (in the arithmetic written here, which does not round inside
  the normal range).
\<close>

lemma i2_roundtrip: "ucast (ucast w :: 8 word) OR push_bit 8 (ucast (ucast (drop_bit 8 w) :: 8 word)) = (w :: 16 word)"
  by (rule bit_word_eqI) (auto simp: bit_simps)

lemma i2_of_bytes_tobytes: "i2_of_bytes (tobytes_i2 ws) = ws"
  by (induction ws) (simp_all add: tobytes_i2_def i2_roundtrip)

lemma trunc_bounds:
  assumes "\<bar>v\<bar> \<le> 32767"
  shows "\<bar>trunc v\<bar> \<le> 32767" and "\<bar>real_of_int (trunc v) - v\<bar> < 1"
proof -
  show "\<bar>real_of_int (trunc v) - v\<bar> < 1"
    unfolding trunc_def by (cases "0 \<le> v") (simp_all, linarith+)
  show "\<bar>trunc v\<bar> \<le> 32767"
    using assms unfolding trunc_def
    by (cases "0 \<le> v") (auto simp: abs_le_iff floor_le_iff le_floor_iff ceiling_le_iff le_ceiling_iff, linarith+)
qed

lemma sint_i2: "\<bar>k\<bar> \<le> 32767 \<Longrightarrow> sint (word_of_int k :: 16 word) = k"
proof -
  assume "\<bar>k\<bar> \<le> 32767"
  then have "- (2 ^ 15) \<le> k" and "k < 2 ^ 15"
    by simp_all
  then have "signed_take_bit 15 k = k"
    by (rule signed_take_bit_int_eq_self)
  then show ?thesis
    by (simp add: sint_sbintrunc')
qed

lemma np_clip_inside: "\<bar>x\<bar> \<le> 1 \<Longrightarrow> np_clip (Fin x) (Fin (- 1)) (Fin 1) = Fin x"
  by (auto simp: np_clip_def)

lemma round64_trunc:
  assumes "\<bar>v\<bar> \<le> 32767"
  shows "\<exists>r. round64 v = Fin r \<and> trunc r = trunc v"
proof (cases "float64_min_normal \<le> \<bar>v\<bar>")
  case True
  from assms float64_bounds_moderate(2) have "\<bar>v\<bar> \<le> float64_max"
    by simp
  with True have "round64 v = Fin v"
    by (rule round64_normal)
  then show ?thesis
    by simp
next
  case False
  have below_one: "float64_min_normal < 1"
    by (simp add: float64_min_normal_def)
  have "valid64 (Fin float64_min_normal)"
    by (simp add: float64_min_normal_def float64_max_def)
  moreover from False have "\<bar>v\<bar> \<le> \<bar>float64_min_normal\<bar>"
    by simp
  ultimately obtain r where r: "round64 v = Fin r" "\<bar>r\<bar> \<le> \<bar>float64_min_normal\<bar>"
    using round64_bounded by blast
  from r(2) below_one float64_min_normal_pos have "\<bar>r\<bar> < 1"
    by simp
  then have "trunc r = 0"
    unfolding trunc_def by (cases "0 \<le> r") (simp_all, linarith+)
  moreover from False below_one have "\<bar>v\<bar> < 1"
    by simp
  then have "trunc v = 0"
    unfolding trunc_def by (cases "0 \<le> v") (simp_all, linarith+)
  ultimately show ?thesis
    using r(1) by simp
qed

lemma decode_sample:
  assumes "\<bar>k\<bar> \<le> 32767"
  shows "fl_div (Fin (real_of_int k)) (Fin 32767) = Fin (real_of_int k / 32767)"
proof (cases "k = 0")
  case True
  then show ?thesis
    by (simp add: round64_zero)
next
  case False
  then have "1 \<le> \<bar>real_of_int k\<bar>"
    by linarith
  then have "1 / 2 ^ 64 \<le> \<bar>real_of_int k / 32767\<bar>"
    by (simp add: field_simps)
  moreover from assms have "\<bar>real_of_int k\<bar> \<le> 32767"
    by linarith
  then have "\<bar>real_of_int k / 32767\<bar> \<le> 2 ^ 64"
    by (simp add: field_simps)
  ultimately show ?thesis
    by (simp add: round64_exact)
qed

lemma encode_decode_sample:
  assumes "\<bar>x\<bar> \<le> 1"
  shows "fl_div (Fin (real_of_int (sint (astype_i2
            (fl_mul (np_clip (Fin x) (Fin (- 1)) (Fin 1)) (Fin (real_of_int MAX_INT_SAMPLE_VALUE)))))))
          (Fin (real_of_int MAX_INT_SAMPLE_VALUE))
        = Fin (real_of_int (trunc (x * 32767)) / 32767)"
proof -
  from assms have product: "\<bar>x * 32767\<bar> \<le> 32767"
    by (simp add: abs_mult)
  then have small: "\<bar>trunc (x * 32767)\<bar> \<le> 32767"
    by (rule trunc_bounds)
  from product obtain r where r: "round64 (x * 32767) = Fin r" "trunc r = trunc (x * 32767)"
    using round64_trunc by blast
  from small have "- (2 ^ 31) \<le> trunc (x * 32767) \<and> trunc (x * 32767) < 2 ^ 31"
    by (simp add: abs_le_iff)
  then have "astype_i2 (Fin r) = word_of_int (trunc (x * 32767))"
    by (simp only: astype_i2_def float64.case r(2) simp_thms if_True)
  with r(1) assms
  have "astype_i2 (fl_mul (np_clip (Fin x) (Fin (- 1)) (Fin 1)) (Fin (real_of_int MAX_INT_SAMPLE_VALUE)))
      = word_of_int (trunc (x * 32767))"
    by (simp add: np_clip_inside max_int_value)
  moreover from small have "sint (word_of_int (trunc (x * 32767)) :: 16 word) = trunc (x * 32767)"
    by (rule sint_i2)
  ultimately show ?thesis
    using decode_sample [OF small] by (simp only: max_int_value of_int_numeral)
qed

lemma quantization_error:
  assumes "\<bar>x\<bar> \<le> 1"
  shows "\<bar>real_of_int (trunc (x * 32767)) / 32767 - x\<bar> \<le> 1 / 32767"
proof -
  from assms have "\<bar>x * 32767\<bar> \<le> 32767"
    by (simp add: abs_mult)
  then have "\<bar>real_of_int (trunc (x * 32767)) - x * 32767\<bar> < 1"
    by (rule trunc_bounds)
  moreover have "real_of_int (trunc (x * 32767)) / 32767 - x
      = (real_of_int (trunc (x * 32767)) - x * 32767) / 32767"
    by (simp add: field_simps)
  ultimately show ?thesis
    by (simp add: field_simps)
qed

lemma roundtrip_of_local_samples:
  assumes "\<forall>x \<in> set xs. \<bar>x\<bar> \<le> 1"
  shows "\<exists>ys. convert_to_samples_local (convert_to_bytes (map Fin xs)) = Inr (map Fin ys)
           \<and> length ys = length xs
           \<and> (\<forall>i < length xs. \<bar>ys ! i - xs ! i\<bar> \<le> 1 / real_of_int MAX_INT_SAMPLE_VALUE)"
proof -
  let ?q = "\<lambda>x. real_of_int (trunc (x * 32767)) / 32767"
  let ?enc = "\<lambda>s. astype_i2 (fl_mul (np_clip s (Fin (- 1)) (Fin 1)) (Fin (real_of_int MAX_INT_SAMPLE_VALUE)))"
  let ?dec = "\<lambda>w. fl_div (Fin (real_of_int (sint w))) (Fin (real_of_int MAX_INT_SAMPLE_VALUE))"
  have bytes: "convert_to_bytes (map Fin xs) = tobytes_i2 (map ?enc (map Fin xs))"
    by (simp add: convert_to_bytes_def o_def)
  have "convert_to_samples_local (convert_to_bytes (map Fin xs))
      = Inr (map ?dec (i2_of_bytes (convert_to_bytes (map Fin xs))))"
    by (simp add: convert_to_samples_local_def np_frombuffer_i2_def length_convert_to_bytes)
  also have "i2_of_bytes (convert_to_bytes (map Fin xs)) = map ?enc (map Fin xs)"
    unfolding bytes by (rule i2_of_bytes_tobytes)
  also have "map ?dec (map ?enc (map Fin xs)) = map (\<lambda>x. ?dec (?enc (Fin x))) xs"
    by (simp only: map_map o_def)
  also have "\<dots> = map (\<lambda>x. Fin (?q x)) xs"
  proof (rule map_cong [OF refl])
    fix x assume "x \<in> set xs"
    with assms have "\<bar>x\<bar> \<le> 1"
      by simp
    then show "?dec (?enc (Fin x)) = Fin (?q x)"
      by (rule encode_decode_sample)
  qed
  also have "\<dots> = map Fin (map ?q xs)"
    by (simp only: map_map o_def)
  finally have "convert_to_samples_local (convert_to_bytes (map Fin xs)) = Inr (map Fin (map ?q xs))" .
  moreover have "\<forall>i < length xs. \<bar>map ?q xs ! i - xs ! i\<bar> \<le> 1 / real_of_int MAX_INT_SAMPLE_VALUE"
  proof (intro allI impI)
    fix i assume i: "i < length xs"
    with assms have "\<bar>xs ! i\<bar> \<le> 1"
      by simp
    then have "\<bar>?q (xs ! i) - xs ! i\<bar> \<le> 1 / 32767"
      by (rule quantization_error)
    with i show "\<bar>map ?q xs ! i - xs ! i\<bar> \<le> 1 / real_of_int MAX_INT_SAMPLE_VALUE"
      by (simp only: nth_map max_int_value of_int_numeral)
  qed
  ultimately show ?thesis
    by (intro exI [of _ "map ?q xs"] conjI) simp_all
qed

subsection \<open>Claims about decoding\<close>

text \<open>
  Claim C1 says that \<open>convert_to_samples(convert_to_bytes(x))\<close> is a sequence within
  \<open>1 / MAX_INT_SAMPLE_VALUE\<close> of \<open>x\<close>. For \<open>x = [0.5, -1.0]\<close> the body of
  \<open>convert_to_samples\<close> computes \<open>[16383/32767, -1.0]\<close>, which is within that
  distance, but the function has no \<open>return\<close> and the call evaluates to \<open>None\<close>.
\<close>

theorem convert_to_samples_roundtrip_returns_none:
  "convert_to_samples (convert_to_bytes [Fin (1 / 2), Fin (- 1)]) = Inr None
   \<and> convert_to_samples_local (convert_to_bytes [Fin (1 / 2), Fin (- 1)])
       = Inr [Fin (16383 / 32767), Fin (- 1)]"
  by (simp add: convert_to_samples_def convert_to_samples_local_def np_frombuffer_i2_def
      convert_to_bytes_def tobytes_i2_def max_int_value np_clip_def astype_i2_def trunc_def
      round64_exact)

text \<open>
  Claim C8 says that \<open>convert_to_samples\<close> fails on a buffer of odd length and returns
  the decoded samples on a buffer of even length. On the one-byte buffer \<open>01\<close> it
  raises (the \<open>ValueError\<close> of \<open>np.frombuffer\<close>); on \<open>FF 7F 01 80\<close>, the
  little-endian \<open>int16\<close> values 32767 and -32767, the body computes
  \<open>[1.0, -1.0]\<close> and the call evaluates to \<open>None\<close>.
\<close>

theorem convert_to_samples_returns_none:
  "convert_to_samples [0x01] = Inl ValueError
   \<and> convert_to_samples [0xFF, 0x7F, 0x01, 0x80] = Inr None
   \<and> convert_to_samples_local [0xFF, 0x7F, 0x01, 0x80] = Inr [Fin 1, Fin (- 1)]"
  by (simp add: convert_to_samples_def convert_to_samples_local_def np_frombuffer_i2_def
      max_int_value round64_exact)

end
